theory Spec2Isabelle
  imports Main "HOL-Library.Word"
begin

section \<open>Common types\<close>

text \<open>
  The buffer pool substrate of the repository: the LRU-K replacer
  (\<^verbatim>\<open>src/buffer/lru_k_replacer.cpp\<close>), the buffer pool manager
  (\<^verbatim>\<open>src/buffer/buffer_pool_manager.cpp\<close>), the disk scheduler
  (\<^verbatim>\<open>src/storage/disk/disk_scheduler.cpp\<close>) and the page guards
  (\<^verbatim>\<open>src/storage/page/page_guard.cpp\<close>), as a sequential shallow embedding:
  one thread, every call runs to completion, latches are not modelled.

  \<^verbatim>\<open>frame_id_t\<close> and \<^verbatim>\<open>page_id_t\<close> are signed integers (\<open>int\<close>);
  \<^verbatim>\<open>size_t\<close> is a \<open>nat\<close> below \<open>2 ^ 64\<close> whose decrement, increment and
  subtraction wrap around, written out below.
\<close>

type_synonym frame_id_t = int
type_synonym page_id_t = int
type_synonym byte = "8 word"

text \<open>
  Modelled from the spec: \<^verbatim>\<open>common/config.h\<close>, which declares
  \<^verbatim>\<open>INVALID_PAGE_ID\<close> and \<^verbatim>\<open>AccessType\<close>, is not among the sources. Section 3
  of the spec has page ids non-negative and the sentinel none of them; \<open>-1\<close> is the
  value BusTub gives it. The replacer's range assertion keeps every tracked frame id
  different from it. Of the access types the sources name \<^verbatim>\<open>Unknown\<close> and
  \<^verbatim>\<open>Scan\<close>.
\<close>

definition INVALID_PAGE_ID :: int where
  "INVALID_PAGE_ID = -1"

datatype AccessType = Unknown | Lookup | Scan | Index

text \<open>
  How a call can fail to return. Modelled from the spec: \<^verbatim>\<open>common/macros.h\<close> with
  \<^verbatim>\<open>BUSTUB_ASSERT\<close> and \<^verbatim>\<open>BUSTUB_ENSURE\<close> is not among the sources; section 7
  of the spec has programmer errors surface as an abort, so a failed check ends the call.
  The other ways are those of C++: \<^verbatim>\<open>value()\<close> on an empty optional, a null or
  out-of-range access, \<^verbatim>\<open>pop_front\<close> on an empty list, and locking a mutex the
  thread already holds.
\<close>

datatype error =
    AssertionFailed
  | EnsureFailed
  | BadOptionalAccess
  | NullDereference
  | OutOfRange
  | EmptyPopFront
  | Deadlock

text \<open>
  Sequencing of calls that can abort: the second runs on the result of the first.
\<close>

definition then_do :: "error + 'a \<Rightarrow> ('a \<Rightarrow> error + 'b) \<Rightarrow> error + 'b" where
  "then_do x f = (case x of Inl e \<Rightarrow> Inl e | Inr v \<Rightarrow> f v)"

definition size_inc :: "nat \<Rightarrow> nat" where
  "size_inc n = (n + 1) mod 2 ^ 64"

definition size_dec :: "nat \<Rightarrow> nat" where
  "size_dec n = (n + (2 ^ 64 - 1)) mod 2 ^ 64"

definition size_sub :: "nat \<Rightarrow> nat \<Rightarrow> nat" where
  "size_sub a b = (a + (2 ^ 64 - b mod 2 ^ 64)) mod 2 ^ 64"

definition size_t_of_int :: "int \<Rightarrow> nat" where
  "size_t_of_int i = nat (i mod 2 ^ 64)"

section \<open>LRU-K replacer\<close>

text \<open>
  Modelled from the spec: \<^verbatim>\<open>buffer/lru_k_replacer.h\<close>, which declares the two
  classes, is not among the sources. The fields are the members
  \<^verbatim>\<open>lru_k_replacer.cpp\<close> uses, as section 3 of the spec lists them: a node has its
  history, oldest timestamp first, and its evictable flag; the replacer has the node map,
  the global timestamp, \<^verbatim>\<open>curr_size_\<close>, \<^verbatim>\<open>replacer_size_\<close> and \<^verbatim>\<open>k_\<close>
  (\<open>k_dist\<close> here). A node made by \<^verbatim>\<open>std::make_unique<LRUKNode>()\<close> has an empty
  history and is not evictable; a new replacer tracks nothing, with timestamp and size 0.
\<close>

record LRUKNode =
  history :: "nat list"
  is_evictable :: bool

text \<open>
  \<open>node_store\<close> is the \<^verbatim>\<open>std::unordered_map\<close> of the source. Its iteration order
  is unspecified in C++; here it is the order of the list, whatever that is. A new key
  is put in front. Keys are distinct in every state the operations build.
\<close>

record LRUKReplacer =
  node_store :: "(frame_id_t \<times> LRUKNode) list"
  current_timestamp :: nat
  curr_size :: nat
  replacer_size :: nat
  k_dist :: nat

definition default_node :: LRUKNode where
  "default_node = \<lparr>history = [], is_evictable = False\<rparr>"

definition LRUKReplacer_init :: "nat \<Rightarrow> nat \<Rightarrow> LRUKReplacer" where
  "LRUKReplacer_init num_frames k =
     \<lparr>node_store = [], current_timestamp = 0, curr_size = 0,
      replacer_size = num_frames, k_dist = k\<rparr>"

definition find_node :: "(frame_id_t \<times> LRUKNode) list \<Rightarrow> frame_id_t \<Rightarrow> LRUKNode option" where
  "find_node store f = map_of store f"

definition erase_node :: "frame_id_t \<Rightarrow> (frame_id_t \<times> LRUKNode) list \<Rightarrow> (frame_id_t \<times> LRUKNode) list" where
  "erase_node f store = filter (\<lambda>p. fst p \<noteq> f) store"

definition update_node ::
  "frame_id_t \<Rightarrow> (LRUKNode \<Rightarrow> LRUKNode) \<Rightarrow> (frame_id_t \<times> LRUKNode) list \<Rightarrow> (frame_id_t \<times> LRUKNode) list" where
  "update_node f g store = map (\<lambda>p. if fst p = f then (fst p, g (snd p)) else p) store"

text \<open>
  The loop of \<^verbatim>\<open>LRUKReplacer::Evict\<close> over \<^verbatim>\<open>node_store_\<close>, with its four local
  variables as arguments; it returns \<^verbatim>\<open>evict_success\<close> and \<^verbatim>\<open>ans\<close>. The
  \<^verbatim>\<open>break\<close> on an empty history ends the recursion.
\<close>

fun Evict_loop ::
  "nat \<Rightarrow> nat \<Rightarrow> (frame_id_t \<times> LRUKNode) list \<Rightarrow> bool \<Rightarrow> bool \<Rightarrow> nat \<Rightarrow> frame_id_t \<Rightarrow> bool \<times> frame_id_t" where
  "Evict_loop k now [] evict_success is_inf max_delta_time ans = (evict_success, ans)"
| "Evict_loop k now ((f_id, node) # rest) evict_success is_inf max_delta_time ans =
     (if \<not> is_evictable node then Evict_loop k now rest evict_success is_inf max_delta_time ans
      else if history node = [] then (True, f_id)
      else if length (history node) = k \<and> \<not> is_inf then
        (let time_delta = size_sub now (hd (history node)) in
         if max_delta_time < time_delta
         then Evict_loop k now rest True is_inf time_delta f_id
         else Evict_loop k now rest True is_inf max_delta_time ans)
      else if length (history node) < k then
        (let time_delta = size_sub now (hd (history node)) in
         if time_delta > max_delta_time
         then Evict_loop k now rest True True time_delta f_id
         else Evict_loop k now rest True True max_delta_time ans)
      else Evict_loop k now rest True is_inf max_delta_time ans)"

text \<open>
  \<^verbatim>\<open>node_store_[ans].history_.clear(); node_store_.erase(ans)\<close> leaves the map
  without \<^verbatim>\<open>ans\<close>, whether or not it was a key.
\<close>

definition Evict :: "LRUKReplacer \<Rightarrow> frame_id_t option \<times> LRUKReplacer" where
  "Evict r =
     (case Evict_loop (k_dist r) (current_timestamp r) (node_store r) False False 0 INVALID_PAGE_ID of
        (evict_success, ans) \<Rightarrow>
          (if ans = INVALID_PAGE_ID then None else Some ans,
           if evict_success
           then r\<lparr>curr_size := size_dec (curr_size r),
                  node_store := erase_node ans (node_store r)\<rparr>
           else r))"

definition RecordAccess :: "LRUKReplacer \<Rightarrow> frame_id_t \<Rightarrow> AccessType \<Rightarrow> error + LRUKReplacer" where
  "RecordAccess r frame_id access_type =
     (let helper = size_t_of_int frame_id in
      if \<not> helper \<le> replacer_size r then Inl AssertionFailed
      else
        (case find_node (node_store r) frame_id of
           None \<Rightarrow>
             if access_type \<noteq> Scan
             then Inr (r\<lparr>node_store :=
                           (frame_id, default_node\<lparr>history := [current_timestamp r]\<rparr>) # node_store r,
                         current_timestamp := size_inc (current_timestamp r)\<rparr>)
             else Inr (r\<lparr>node_store := (frame_id, default_node) # node_store r\<rparr>)
         | Some node \<Rightarrow>
             if access_type \<noteq> Scan
             then
               (if length (history node) = k_dist r
                then
                  (case history node of
                     [] \<Rightarrow> Inl EmptyPopFront
                   | t # ts \<Rightarrow>
                       Inr (r\<lparr>node_store :=
                                 update_node frame_id (\<lambda>n. n\<lparr>history := ts @ [current_timestamp r]\<rparr>)
                                   (node_store r),
                               current_timestamp := size_inc (current_timestamp r)\<rparr>))
                else
                  Inr (r\<lparr>node_store :=
                            update_node frame_id
                              (\<lambda>n. n\<lparr>history := history node @ [current_timestamp r]\<rparr>) (node_store r),
                          current_timestamp := size_inc (current_timestamp r)\<rparr>))
             else Inr r))"

text \<open>
  The two consecutive \<^verbatim>\<open>if\<close>s of \<^verbatim>\<open>SetEvictable\<close> on the node the reference
  \<^verbatim>\<open>node\<close> is bound to, and on \<^verbatim>\<open>curr_size_\<close>.
\<close>

definition SetEvictable_flags :: "LRUKNode \<Rightarrow> bool \<Rightarrow> nat \<Rightarrow> LRUKNode \<times> nat" where
  "SetEvictable_flags node set_evictable cs =
     (case (if set_evictable \<and> \<not> is_evictable node
            then (node\<lparr>is_evictable := set_evictable\<rparr>, size_inc cs)
            else (node, cs)) of
        (node1, cs1) \<Rightarrow>
          if \<not> set_evictable \<and> is_evictable node1
          then (node1\<lparr>is_evictable := set_evictable\<rparr>, size_dec cs1)
          else (node1, cs1))"

text \<open>
  When the frame is not tracked, the source inserts a copy of the fresh node into the map
  and binds \<^verbatim>\<open>node\<close> to the heap object \<^verbatim>\<open>*new_node_ptr\<close>, not to the copy: the
  flag is set on an object that dies at the end of the call, \<^verbatim>\<open>curr_size_\<close> is
  updated all the same.
\<close>

definition SetEvictable :: "LRUKReplacer \<Rightarrow> frame_id_t \<Rightarrow> bool \<Rightarrow> error + LRUKReplacer" where
  "SetEvictable r frame_id set_evictable =
     (let helper = size_t_of_int frame_id in
      if \<not> helper \<le> replacer_size r then Inl AssertionFailed
      else
        (case find_node (node_store r) frame_id of
           None \<Rightarrow>
             (case SetEvictable_flags default_node set_evictable (curr_size r) of
                (new_node, cs) \<Rightarrow>
                  Inr (r\<lparr>node_store := (frame_id, default_node) # node_store r, curr_size := cs\<rparr>))
         | Some node \<Rightarrow>
             (case SetEvictable_flags node set_evictable (curr_size r) of
                (node', cs) \<Rightarrow>
                  Inr (r\<lparr>node_store := update_node frame_id (\<lambda>n. node') (node_store r),
                          curr_size := cs\<rparr>))))"

definition Remove :: "LRUKReplacer \<Rightarrow> frame_id_t \<Rightarrow> error + LRUKReplacer" where
  "Remove r frame_id =
     (case find_node (node_store r) frame_id of
        None \<Rightarrow> Inr r
      | Some node \<Rightarrow>
          if \<not> is_evictable node then Inl AssertionFailed
          else Inr (r\<lparr>node_store := erase_node frame_id (node_store r),
                      curr_size := size_dec (curr_size r)\<rparr>))"

definition Size :: "LRUKReplacer \<Rightarrow> nat" where
  "Size r = curr_size r"

text \<open>The number of tracked nodes whose \<^verbatim>\<open>is_evictable_\<close> flag is set.\<close>

definition evictable_count :: "LRUKReplacer \<Rightarrow> nat" where
  "evictable_count r = length (filter (\<lambda>p. is_evictable (snd p)) (node_store r))"

section \<open>Disk scheduler\<close>

datatype disk_call =
    WritePageCall page_id_t "byte list"
  | ReadPageCall page_id_t
  | IncreaseDiskSpaceCall page_id_t
  | DeallocatePageCall page_id_t

text \<open>
  Modelled from the spec: the disk manager (\<^verbatim>\<open>storage/disk/disk_manager.h\<close>) and the
  scheduler's \<^verbatim>\<open>IncreaseDiskSpace\<close> and \<^verbatim>\<open>DeallocatePage\<close> are not among the
  sources. Section 6 of the spec gives the contract: pages are read and written by page
  id. \<open>disk_pages\<close> holds what was last written to each page, \<open>disk_calls\<close> records
  every call that reached the disk manager, in order.
\<close>

record DiskScheduler =
  disk_pages :: "page_id_t \<rightharpoonup> byte list"
  disk_calls :: "disk_call list"

record DiskRequest =
  is_write :: bool
  req_data :: "byte list"
  req_page_id :: page_id_t

text \<open>
  \<^verbatim>\<open>Schedule\<close> followed by \<^verbatim>\<open>future.get()\<close>: the worker of
  \<^verbatim>\<open>StartWorkerThread\<close> takes the request, calls \<^verbatim>\<open>WritePage\<close> or
  \<^verbatim>\<open>ReadPage\<close> of the disk manager and fulfils the promise. Every caller in the
  sources waits for the future at once, so the request runs here at the call. The result
  is the buffer the request points to, after the call.
\<close>

definition Schedule :: "DiskScheduler \<Rightarrow> DiskRequest \<Rightarrow> DiskScheduler \<times> byte list" where
  "Schedule d r =
     (if is_write r
      then (d\<lparr>disk_pages := (disk_pages d)(req_page_id r \<mapsto> req_data r),
               disk_calls := disk_calls d @ [WritePageCall (req_page_id r) (req_data r)]\<rparr>,
            req_data r)
      else (d\<lparr>disk_calls := disk_calls d @ [ReadPageCall (req_page_id r)]\<rparr>,
            case disk_pages d (req_page_id r) of
              Some bytes \<Rightarrow> bytes
            | None \<Rightarrow> replicate (length (req_data r)) 0))"

definition IncreaseDiskSpace :: "DiskScheduler \<Rightarrow> page_id_t \<Rightarrow> DiskScheduler" where
  "IncreaseDiskSpace d p = d\<lparr>disk_calls := disk_calls d @ [IncreaseDiskSpaceCall p]\<rparr>"

definition DeallocatePage :: "DiskScheduler \<Rightarrow> page_id_t \<Rightarrow> DiskScheduler" where
  "DeallocatePage d p = d\<lparr>disk_calls := disk_calls d @ [DeallocatePageCall p]\<rparr>"

section \<open>Frames and the buffer pool manager\<close>

record FrameHeader =
  frame_id :: frame_id_t
  pin_count :: nat
  is_dirty :: bool
  data :: "byte list"

definition Reset :: "FrameHeader \<Rightarrow> FrameHeader" where
  "Reset fh = fh\<lparr>data := replicate (length (data fh)) 0, pin_count := 0, is_dirty := False\<rparr>"

text \<open>
  \<^verbatim>\<open>BUSTUB_PAGE_SIZE\<close> is declared in a header that is not among the sources; it is
  the parameter \<open>page_size\<close> of the constructors.
\<close>

definition FrameHeader_init :: "nat \<Rightarrow> frame_id_t \<Rightarrow> FrameHeader" where
  "FrameHeader_init page_size i =
     Reset \<lparr>frame_id = i, pin_count = 0, is_dirty = False, data = replicate page_size 0\<rparr>"

text \<open>
  \<open>next_page_id\<close> is an unbounded \<open>int\<close>: the counter of the source would need
  \<open>2 ^ 31\<close> allocations to overflow. The pool latch is not part of the state.
\<close>

record BufferPoolManager =
  num_frames :: nat
  next_page_id :: page_id_t
  frames :: "FrameHeader list"
  page_table :: "page_id_t \<rightharpoonup> frame_id_t"
  free_frames :: "frame_id_t list"
  replacer :: LRUKReplacer
  disk_scheduler :: DiskScheduler

definition BufferPoolManager_init :: "nat \<Rightarrow> nat \<Rightarrow> nat \<Rightarrow> BufferPoolManager" where
  "BufferPoolManager_init n k page_size =
     \<lparr>num_frames = n,
      next_page_id = 0,
      frames = map (\<lambda>i. FrameHeader_init page_size (int i)) [0..<n],
      page_table = Map.empty,
      free_frames = map int [0..<n],
      replacer = LRUKReplacer_init n k,
      disk_scheduler = \<lparr>disk_pages = Map.empty, disk_calls = []\<rparr>\<rparr>"

text \<open>\<^verbatim>\<open>frames_[i]\<close>: outside the vector the source has undefined behaviour.\<close>

definition frame_at :: "FrameHeader list \<Rightarrow> frame_id_t \<Rightarrow> FrameHeader option" where
  "frame_at fs i = (if 0 \<le> i \<and> nat i < length fs then Some (fs ! nat i) else None)"

definition frame_upd :: "FrameHeader list \<Rightarrow> frame_id_t \<Rightarrow> (FrameHeader \<Rightarrow> FrameHeader) \<Rightarrow> FrameHeader list" where
  "frame_upd fs i g = fs[nat i := g (fs ! nat i)]"

text \<open>\<^verbatim>\<open>unordered_map::emplace\<close> leaves an existing key as it is.\<close>

definition emplace :: "('k \<rightharpoonup> 'v) \<Rightarrow> 'k \<Rightarrow> 'v \<Rightarrow> ('k \<rightharpoonup> 'v)" where
  "emplace m key v = (case m key of None \<Rightarrow> m(key \<mapsto> v) | Some _ \<Rightarrow> m)"

definition Size_bpm :: "BufferPoolManager \<Rightarrow> nat" where
  "Size_bpm s = num_frames s"

section \<open>Page guards\<close>

text \<open>
  \<^verbatim>\<open>ReadPageGuard\<close> and \<^verbatim>\<open>WritePageGuard\<close> have the same fields. The shared
  pointer \<^verbatim>\<open>frame_\<close> is the index of the frame in \<^verbatim>\<open>frames_\<close> (\<open>None\<close> is the
  null pointer); \<^verbatim>\<open>replacer_\<close> and \<^verbatim>\<open>bpm_latch_\<close> point to the pool's own
  replacer and latch or are null. \<^verbatim>\<open>bpm_\<close> is never assigned and is left out.
\<close>

record PageGuard =
  guard_page_id :: page_id_t
  guard_frame :: "frame_id_t option"
  guard_replacer :: bool
  guard_bpm_latch :: bool
  is_valid :: bool

text \<open>
  A default-constructed guard; \<^verbatim>\<open>page_id_\<close> has no initialiser in the header, its
  value is the parameter.
\<close>

definition PageGuard_default :: "page_id_t \<Rightarrow> PageGuard" where
  "PageGuard_default uninit =
     \<lparr>guard_page_id = uninit, guard_frame = None, guard_replacer = False,
      guard_bpm_latch = False, is_valid = False\<rparr>"

definition release_pointers :: "PageGuard \<Rightarrow> PageGuard" where
  "release_pointers g = g\<lparr>guard_frame := None, guard_replacer := False, guard_bpm_latch := False\<rparr>"

text \<open>
  What the constructors and the move operations do once \<^verbatim>\<open>frame_\<close> and
  \<^verbatim>\<open>replacer_\<close> are set: the lock object is a temporary, so no latch stays held;
  then \<^verbatim>\<open>RecordAccess\<close> and \<^verbatim>\<open>SetEvictable(false)\<close> on the frame's id.
\<close>

definition guard_touch :: "BufferPoolManager \<Rightarrow> PageGuard \<Rightarrow> error + BufferPoolManager" where
  "guard_touch s g =
     (case guard_frame g of
        None \<Rightarrow> Inl NullDereference
      | Some i \<Rightarrow>
          (case frame_at (frames s) i of
             None \<Rightarrow> Inl OutOfRange
           | Some fr \<Rightarrow>
               if \<not> guard_replacer g then Inl NullDereference
               else
                 then_do (RecordAccess (replacer s) (frame_id fr) Unknown) (\<lambda>r1.
                 then_do (SetEvictable r1 (frame_id fr) False) (\<lambda>r2.
                 Inr (s\<lparr>replacer := r2\<rparr>)))))"

definition ReadPageGuard_ctor ::
  "BufferPoolManager \<Rightarrow> page_id_t \<Rightarrow> frame_id_t \<Rightarrow> error + (PageGuard \<times> BufferPoolManager)" where
  "ReadPageGuard_ctor s page_id frame =
     (let g = \<lparr>guard_page_id = page_id, guard_frame = Some frame, guard_replacer = True,
               guard_bpm_latch = True, is_valid = False\<rparr>
      in then_do (guard_touch s g) (\<lambda>s1. Inr (g\<lparr>is_valid := True\<rparr>, s1)))"

definition WritePageGuard_ctor ::
  "BufferPoolManager \<Rightarrow> page_id_t \<Rightarrow> frame_id_t \<Rightarrow> error + (PageGuard \<times> BufferPoolManager)" where
  "WritePageGuard_ctor s page_id frame =
     (let g = \<lparr>guard_page_id = page_id, guard_frame = Some frame, guard_replacer = True,
               guard_bpm_latch = True, is_valid = False\<rparr>
      in then_do (guard_touch s g) (\<lambda>s1. Inr (g\<lparr>is_valid := True\<rparr>, s1)))"

definition ReadPageGuard_Drop :: "BufferPoolManager \<Rightarrow> PageGuard \<Rightarrow> error + (PageGuard \<times> BufferPoolManager)" where
  "ReadPageGuard_Drop s g =
     (if \<not> is_valid g then Inr (g, s)
      else
        (case guard_frame g of
           None \<Rightarrow> Inr ((release_pointers g)\<lparr>is_valid := False\<rparr>, s)
         | Some i \<Rightarrow>
             (case frame_at (frames s) i of
                None \<Rightarrow> Inl OutOfRange
              | Some fr \<Rightarrow>
                  if pin_count fr \<le> 0 then Inr (g, s)
                  else
                    (let s1 = s\<lparr>frames := frame_upd (frames s) i
                                           (\<lambda>f. f\<lparr>pin_count := size_dec (pin_count f)\<rparr>)\<rparr>
                     in if size_dec (pin_count fr) = 0
                        then
                          (if \<not> guard_replacer g then Inl NullDereference
                           else then_do (SetEvictable (replacer s1) (frame_id fr) True) (\<lambda>r1.
                                Inr ((release_pointers g)\<lparr>is_valid := False\<rparr>, s1\<lparr>replacer := r1\<rparr>)))
                        else Inr ((release_pointers g)\<lparr>is_valid := False\<rparr>, s1)))))"

definition WritePageGuard_Drop :: "BufferPoolManager \<Rightarrow> PageGuard \<Rightarrow> error + (PageGuard \<times> BufferPoolManager)" where
  "WritePageGuard_Drop s g =
     (if \<not> is_valid g then Inr (g, s)
      else
        (case guard_frame g of
           None \<Rightarrow> Inl NullDereference
         | Some i \<Rightarrow>
             (case frame_at (frames s) i of
                None \<Rightarrow> Inl OutOfRange
              | Some fr \<Rightarrow>
                  if pin_count fr = 0 then Inr (g, s)
                  else
                    (let s1 = s\<lparr>frames := frame_upd (frames s) i
                                           (\<lambda>f. f\<lparr>pin_count := size_dec (pin_count f)\<rparr>)\<rparr>
                     in if size_dec (pin_count fr) = 0
                        then
                          (if \<not> guard_replacer g then Inl NullDereference
                           else then_do (SetEvictable (replacer s1) (frame_id fr) True) (\<lambda>r1.
                                Inr ((release_pointers g)\<lparr>is_valid := False\<rparr>, s1\<lparr>replacer := r1\<rparr>)))
                        else Inr ((release_pointers g)\<lparr>is_valid := False\<rparr>, s1)))))"

text \<open>
  The move constructors build \<^verbatim>\<open>*this\<close> from \<^verbatim>\<open>that\<close>; they return the new
  guard, \<^verbatim>\<open>that\<close> as the call leaves it, and the pool. The members of \<^verbatim>\<open>*this\<close>
  start default-initialised. Moving a shared pointer leaves the source null.
\<close>

definition take_fields :: "PageGuard \<Rightarrow> PageGuard \<Rightarrow> PageGuard" where
  "take_fields this that =
     this\<lparr>guard_page_id := guard_page_id that, guard_frame := guard_frame that,
          guard_replacer := guard_replacer that, guard_bpm_latch := guard_bpm_latch that,
          is_valid := True\<rparr>"

definition ReadPageGuard_move_ctor ::
  "BufferPoolManager \<Rightarrow> page_id_t \<Rightarrow> PageGuard \<Rightarrow> error + (PageGuard \<times> PageGuard \<times> BufferPoolManager)" where
  "ReadPageGuard_move_ctor s uninit that =
     then_do (ReadPageGuard_Drop s (PageGuard_default uninit)) (\<lambda>(this, s1).
       if is_valid that
       then
         (let this1 = take_fields this that;
              that1 = release_pointers that
          in then_do (guard_touch s1 this1) (\<lambda>s2. Inr (this1, that1, s2)))
       else Inr (this, that, s1))"

text \<open>Move assignment between two different guard objects.\<close>

definition ReadPageGuard_move_assign ::
  "BufferPoolManager \<Rightarrow> PageGuard \<Rightarrow> PageGuard \<Rightarrow> error + (PageGuard \<times> PageGuard \<times> BufferPoolManager)" where
  "ReadPageGuard_move_assign s this0 that =
     then_do (ReadPageGuard_Drop s this0) (\<lambda>(this, s1).
       if is_valid that
       then
         (let this1 = take_fields this that;
              that1 = (release_pointers that)\<lparr>is_valid := False\<rparr>
          in then_do (guard_touch s1 this1) (\<lambda>s2. Inr (this1, that1, s2)))
       else Inr (this, that, s1))"

definition WritePageGuard_move_ctor ::
  "BufferPoolManager \<Rightarrow> page_id_t \<Rightarrow> PageGuard \<Rightarrow> error + (PageGuard \<times> PageGuard \<times> BufferPoolManager)" where
  "WritePageGuard_move_ctor s uninit that =
     (let this = PageGuard_default uninit
      in if is_valid that
         then
           (let this1 = take_fields this that;
                that1 = (release_pointers that)\<lparr>is_valid := False\<rparr>
            in then_do (guard_touch s this1) (\<lambda>s2. Inr (this1, that1, s2)))
         else Inr (this, that, s))"

definition WritePageGuard_move_assign ::
  "BufferPoolManager \<Rightarrow> PageGuard \<Rightarrow> PageGuard \<Rightarrow> error + (PageGuard \<times> PageGuard \<times> BufferPoolManager)" where
  "WritePageGuard_move_assign s this that =
     (if is_valid that
      then
        (let this1 = take_fields this that;
             that1 = (release_pointers that)\<lparr>is_valid := False\<rparr>
         in then_do (guard_touch s this1) (\<lambda>s2. Inr (this1, that1, s2)))
      else Inr (this, that, s))"

definition GetPageId :: "PageGuard \<Rightarrow> error + page_id_t" where
  "GetPageId g = (if \<not> is_valid g then Inl EnsureFailed else Inr (guard_page_id g))"

definition GetData :: "BufferPoolManager \<Rightarrow> PageGuard \<Rightarrow> error + byte list" where
  "GetData s g =
     (if \<not> is_valid g then Inl EnsureFailed
      else
        (case guard_frame g of
           None \<Rightarrow> Inl NullDereference
         | Some i \<Rightarrow>
             (case frame_at (frames s) i of
                None \<Rightarrow> Inl OutOfRange
              | Some fr \<Rightarrow> Inr (data fr))))"

definition IsDirty :: "BufferPoolManager \<Rightarrow> PageGuard \<Rightarrow> error + bool" where
  "IsDirty s g =
     (if \<not> is_valid g then Inl EnsureFailed
      else
        (case guard_frame g of
           None \<Rightarrow> Inl NullDereference
         | Some i \<Rightarrow>
             (case frame_at (frames s) i of
                None \<Rightarrow> Inl OutOfRange
              | Some fr \<Rightarrow> Inr (is_dirty fr))))"

text \<open>
  \<^verbatim>\<open>GetDataMut\<close> returns a pointer into the frame; the caller writes through it. The
  two together: the frame's buffer is overwritten with \<open>bytes\<close>, nothing else changes.
\<close>

definition GetDataMut_store :: "BufferPoolManager \<Rightarrow> PageGuard \<Rightarrow> byte list \<Rightarrow> error + BufferPoolManager" where
  "GetDataMut_store s g bytes =
     (if \<not> is_valid g then Inl EnsureFailed
      else
        (case guard_frame g of
           None \<Rightarrow> Inl NullDereference
         | Some i \<Rightarrow>
             (case frame_at (frames s) i of
                None \<Rightarrow> Inl OutOfRange
              | Some fr \<Rightarrow> Inr (s\<lparr>frames := frame_upd (frames s) i (\<lambda>f. f\<lparr>data := bytes\<rparr>)\<rparr>))))"

section \<open>Operations of the buffer pool manager\<close>

text \<open>
  \<^verbatim>\<open>BufferPoolManager::NewPage\<close>. The frame comes from the free list, or else from
  \<^verbatim>\<open>Evict\<close>, whose result is unwrapped with \<^verbatim>\<open>value()\<close>. The key erased from
  the page table is the frame's \<^verbatim>\<open>frame_id_\<close>. The pin count is left as
  \<^verbatim>\<open>Reset\<close> sets it.
\<close>

definition NewPage :: "BufferPoolManager \<Rightarrow> error + (page_id_t \<times> BufferPoolManager)" where
  "NewPage s =
     then_do
       (case free_frames s of
          f # rest \<Rightarrow> Inr (f, s\<lparr>free_frames := rest\<rparr>)
        | [] \<Rightarrow>
            (case Evict (replacer s) of
               (None, r1) \<Rightarrow> Inl BadOptionalAccess
             | (Some f, r1) \<Rightarrow> Inr (f, s\<lparr>replacer := r1\<rparr>)))
       (\<lambda>(free_frame_id, s1).
          case frame_at (frames s1) free_frame_id of
            None \<Rightarrow> Inl OutOfRange
          | Some newpage \<Rightarrow>
              (let allocate_page_id = next_page_id s1;
                   s2 = s1\<lparr>page_table := (page_table s1)(frame_id newpage := None),
                           next_page_id := next_page_id s1 + 1\<rparr>;
                   s3 = s2\<lparr>disk_scheduler := IncreaseDiskSpace (disk_scheduler s2) allocate_page_id\<rparr>;
                   s4 = s3\<lparr>page_table := emplace (page_table s3) allocate_page_id free_frame_id\<rparr>;
                   s5 = s4\<lparr>frames := frame_upd (frames s4) free_frame_id Reset\<rparr>
               in then_do (RecordAccess (replacer s5) free_frame_id Unknown) (\<lambda>r1.
                  then_do (SetEvictable r1 free_frame_id False) (\<lambda>r2.
                  Inr (allocate_page_id, s5\<lparr>replacer := r2\<rparr>)))))"

text \<open>
  \<^verbatim>\<open>BufferPoolManager::DeletePage\<close>. The sentinel returns true before anything
  else; a pinned page returns false; every other path ends with
  \<^verbatim>\<open>DeallocatePage\<close> and true. \<^verbatim>\<open>Remove\<close> is called on the frame of an
  unpinned page whatever its evictable flag is.
\<close>

definition DeletePage :: "BufferPoolManager \<Rightarrow> page_id_t \<Rightarrow> error + (bool \<times> BufferPoolManager)" where
  "DeletePage s page_id =
     (if page_id = INVALID_PAGE_ID then Inr (True, s)
      else
        then_do
          (case page_table s page_id of
             None \<Rightarrow> Inr (True, s)
           | Some frame_id' \<Rightarrow>
               (case frame_at (frames s) frame_id' of
                  None \<Rightarrow> Inl OutOfRange
                | Some page \<Rightarrow>
                    if pin_count page > 0 then Inr (False, s)
                    else
                      (let s1 = s\<lparr>page_table := (page_table s)(page_id := None),
                                  free_frames := free_frames s @ [frame_id']\<rparr>
                       in then_do (Remove (replacer s1) frame_id') (\<lambda>r1.
                          Inr (True,
                               s1\<lparr>replacer := r1,
                                  frames := frame_upd (frames s1) frame_id'
                                    (\<lambda>f. (Reset f)\<lparr>is_dirty := False, pin_count := 0\<rparr>)\<rparr>)))))
          (\<lambda>(proceed, s2).
             if proceed
             then Inr (True, s2\<lparr>disk_scheduler := DeallocatePage (disk_scheduler s2) page_id\<rparr>)
             else Inr (False, s2)))"

text \<open>
  \<^verbatim>\<open>BufferPoolManager::FlushPage\<close>, called from outside the pool: the write request
  carries the frame's buffer and the page id.
\<close>

definition FlushPage :: "BufferPoolManager \<Rightarrow> page_id_t \<Rightarrow> error + (bool \<times> BufferPoolManager)" where
  "FlushPage s page_id =
     (if page_id = INVALID_PAGE_ID then Inl AssertionFailed
      else
        (case page_table s page_id of
           None \<Rightarrow> Inr (False, s)
         | Some frame_id' \<Rightarrow>
             (case frame_at (frames s) frame_id' of
                None \<Rightarrow> Inl OutOfRange
              | Some fr \<Rightarrow>
                  Inr (True,
                       s\<lparr>disk_scheduler :=
                            fst (Schedule (disk_scheduler s)
                                   \<lparr>is_write = True, req_data = data fr, req_page_id = page_id\<rparr>),
                         frames := frame_upd (frames s) frame_id' (\<lambda>f. f\<lparr>is_dirty := False\<rparr>)\<rparr>))))"

definition GetPinCount :: "BufferPoolManager \<Rightarrow> page_id_t \<Rightarrow> error + nat option" where
  "GetPinCount s page_id =
     (case page_table s page_id of
        None \<Rightarrow> Inr None
      | Some frame_id' \<Rightarrow>
          (case frame_at (frames s) frame_id' of
             None \<Rightarrow> Inl OutOfRange
           | Some fr \<Rightarrow> Inr (Some (pin_count fr))))"

text \<open>
  The frame choice shared by \<^verbatim>\<open>CheckedReadPage\<close> and \<^verbatim>\<open>CheckedWritePage\<close> for
  a page that is not in the page table: \<^verbatim>\<open>Evict\<close> is called first, then the free
  list is looked at; the evicted frame is used only when the free list is empty.
  \<open>None\<close> is the \<^verbatim>\<open>return std::nullopt\<close>.
\<close>

definition pick_frame :: "BufferPoolManager \<Rightarrow> (frame_id_t option) \<times> BufferPoolManager" where
  "pick_frame s =
     (case Evict (replacer s) of
        (pid, r1) \<Rightarrow>
          (let s1 = s\<lparr>replacer := r1\<rparr>
           in case free_frames s1 of
                f # rest \<Rightarrow> (Some f, s1\<lparr>free_frames := rest\<rparr>)
              | [] \<Rightarrow> (pid, s1)))"

text \<open>
  \<^verbatim>\<open>BufferPoolManager::CheckedReadPage\<close>. The guard is built by the constructor, its
  \<^verbatim>\<open>is_valid_\<close> set again, then moved into the optional by the move constructor;
  the local guard is destroyed at the return. The move constructor overwrites the
  indeterminate \<^verbatim>\<open>page_id_\<close> it starts from, since the guard it is given is
  valid; \<open>page_id\<close> stands for it here. The parameter \<^verbatim>\<open>access_type\<close> is not
  used by the source.
\<close>

definition CheckedReadPage ::
  "BufferPoolManager \<Rightarrow> page_id_t \<Rightarrow> AccessType \<Rightarrow> error + (PageGuard option \<times> BufferPoolManager)" where
  "CheckedReadPage s page_id access_type =
     (if page_id = INVALID_PAGE_ID then Inr (None, s)
      else
        (case page_table s page_id of
           Some frame_id' \<Rightarrow>
             (case frame_at (frames s) frame_id' of
                None \<Rightarrow> Inl OutOfRange
              | Some frame \<Rightarrow>
                  (let s1 = s\<lparr>frames := frame_upd (frames s) frame_id'
                                         (\<lambda>f. f\<lparr>pin_count := size_inc (pin_count f)\<rparr>)\<rparr>
                   in then_do (ReadPageGuard_ctor s1 page_id frame_id') (\<lambda>(read_guard, s2).
                      then_do (ReadPageGuard_move_ctor s2 page_id (read_guard\<lparr>is_valid := True\<rparr>))
                        (\<lambda>(result, moved_from, s3).
                      then_do (ReadPageGuard_Drop s3 moved_from) (\<lambda>(dead, s4).
                      Inr (Some result, s4))))))
         | None \<Rightarrow>
             (case pick_frame s of
                (None, s1) \<Rightarrow> Inr (None, s1)
              | (Some free_frame_id, s1) \<Rightarrow>
                  (case frame_at (frames s1) free_frame_id of
                     None \<Rightarrow> Inl OutOfRange
                   | Some newpage \<Rightarrow>
                       (let s2 = (if is_dirty newpage
                                  then s1\<lparr>disk_scheduler :=
                                             fst (Schedule (disk_scheduler s1)
                                                    \<lparr>is_write = True, req_data = data newpage,
                                                     req_page_id = frame_id newpage\<rparr>),
                                          frames := frame_upd (frames s1) free_frame_id
                                                      (\<lambda>f. f\<lparr>is_dirty := False\<rparr>)\<rparr>
                                  else s1);
                            s3 = s2\<lparr>page_table := (page_table s2)(frame_id newpage := None)\<rparr>;
                            s4 = s3\<lparr>page_table := emplace (page_table s3) page_id free_frame_id\<rparr>;
                            s5 = s4\<lparr>frames := frame_upd (frames s4) free_frame_id Reset\<rparr>
                        in then_do (RecordAccess (replacer s5) free_frame_id Unknown) (\<lambda>r1.
                           then_do (SetEvictable r1 free_frame_id False) (\<lambda>r2.
                           then_do (ReadPageGuard_ctor (s5\<lparr>replacer := r2\<rparr>) page_id free_frame_id)
                             (\<lambda>(read_guard, s6).
                           (let s7 = s6\<lparr>frames := frame_upd (frames s6) free_frame_id
                                                    (\<lambda>f. f\<lparr>pin_count := size_inc (pin_count f)\<rparr>)\<rparr>
                            in then_do (ReadPageGuard_move_ctor s7 page_id (read_guard\<lparr>is_valid := True\<rparr>))
                                 (\<lambda>(result, moved_from, s8).
                               then_do (ReadPageGuard_Drop s8 moved_from) (\<lambda>(dead, s9).
                               Inr (Some result, s9))))))))))))"

text \<open>
  \<^verbatim>\<open>BufferPoolManager::CheckedWritePage\<close>. For a dirty victim the source calls
  \<^verbatim>\<open>FlushPage(page_id)\<close> while it holds the pool latch, which \<^verbatim>\<open>FlushPage\<close>
  locks again.
\<close>

definition CheckedWritePage ::
  "BufferPoolManager \<Rightarrow> page_id_t \<Rightarrow> AccessType \<Rightarrow> error + (PageGuard option \<times> BufferPoolManager)" where
  "CheckedWritePage s page_id access_type =
     (if page_id = INVALID_PAGE_ID then Inr (None, s)
      else
        (case page_table s page_id of
           Some frame_id' \<Rightarrow>
             (case frame_at (frames s) frame_id' of
                None \<Rightarrow> Inl OutOfRange
              | Some frame \<Rightarrow>
                  (let s1 = s\<lparr>frames := frame_upd (frames s) frame_id'
                                         (\<lambda>f. f\<lparr>pin_count := size_inc (pin_count f)\<rparr>)\<rparr>
                   in then_do (WritePageGuard_ctor s1 page_id frame_id') (\<lambda>(write_guard, s2).
                      then_do (WritePageGuard_move_ctor s2 page_id (write_guard\<lparr>is_valid := True\<rparr>))
                        (\<lambda>(result, moved_from, s3).
                      then_do (WritePageGuard_Drop s3 moved_from) (\<lambda>(dead, s4).
                      Inr (Some result, s4))))))
         | None \<Rightarrow>
             (case pick_frame s of
                (None, s1) \<Rightarrow> Inr (None, s1)
              | (Some free_frame_id, s1) \<Rightarrow>
                  (case frame_at (frames s1) free_frame_id of
                     None \<Rightarrow> Inl OutOfRange
                   | Some newpage \<Rightarrow>
                       if is_dirty newpage then Inl Deadlock
                       else
                         (let s3 = s1\<lparr>page_table := (page_table s1)(frame_id newpage := None)\<rparr>;
                              s4 = s3\<lparr>page_table := emplace (page_table s3) page_id free_frame_id\<rparr>;
                              s5 = s4\<lparr>frames := frame_upd (frames s4) free_frame_id Reset\<rparr>
                          in then_do (RecordAccess (replacer s5) free_frame_id Unknown) (\<lambda>r1.
                             then_do (SetEvictable r1 free_frame_id False) (\<lambda>r2.
                             then_do (WritePageGuard_ctor (s5\<lparr>replacer := r2\<rparr>) page_id free_frame_id)
                               (\<lambda>(write_guard, s6).
                             (let s7 = s6\<lparr>frames := frame_upd (frames s6) free_frame_id
                                                      (\<lambda>f. f\<lparr>pin_count := size_inc (pin_count f)\<rparr>)\<rparr>
                              in then_do (WritePageGuard_move_ctor s7 page_id (write_guard\<lparr>is_valid := True\<rparr>))
                                   (\<lambda>(result, moved_from, s8).
                                 then_do (WritePageGuard_Drop s8 moved_from) (\<lambda>(dead, s9).
                                 Inr (Some result, s9))))))))))))"

text \<open>The number of frames with a positive pin count.\<close>

definition pinned_frames :: "BufferPoolManager \<Rightarrow> nat" where
  "pinned_frames s = length (filter (\<lambda>f. pin_count f > 0) (frames s))"

section \<open>Well-formed replacer states\<close>

text \<open>
  What every replacer state built by the operations satisfies when the replacer was
  constructed with \<open>k\<close> at least 1, as long as the counters stay below \<open>2 ^ 64\<close>:
  tracked frame ids passed the range assertion (so none is the sentinel), a history holds
  at most \<open>k\<close> timestamps, all of them older than the clock, keys are unique, and
  \<^verbatim>\<open>curr_size_\<close> is at least the number of evictable nodes. The predicate does not
  depend on the order of the nodes. The lemmas \<open>replacer_wf_init\<close> to
  \<open>replacer_wf_RecordAccess\<close> below show that the constructor establishes it and each
  operation keeps it; \<^verbatim>\<open>RecordAccess\<close> keeps it only for \<open>k\<close> at least 1: with
  \<open>k = 0\<close> the first access already leaves a history longer than \<open>k\<close>.
\<close>

definition node_wf :: "nat \<Rightarrow> nat \<Rightarrow> frame_id_t \<times> LRUKNode \<Rightarrow> bool" where
  "node_wf k now p =
     (fst p \<noteq> INVALID_PAGE_ID \<and> length (history (snd p)) \<le> k \<and>
      list_all (\<lambda>t. t < now) (history (snd p)))"

definition replacer_wf :: "LRUKReplacer \<Rightarrow> bool" where
  "replacer_wf r =
     (list_all (node_wf (k_dist r) (current_timestamp r)) (node_store r) \<and>
      distinct (map fst (node_store r)) \<and>
      current_timestamp r < 2 ^ 64 \<and>
      evictable_count r \<le> curr_size r \<and>
      curr_size r < 2 ^ 64 \<and>
      replacer_size r < 2 ^ 64 - 1)"

section \<open>Observations and scenarios\<close>

definition tracked :: "LRUKReplacer \<Rightarrow> frame_id_t \<Rightarrow> bool" where
  "tracked r f = (find_node (node_store r) f \<noteq> None)"

text \<open>The recorded history of a frame; empty when the frame is not tracked.\<close>

definition history_of :: "LRUKReplacer \<Rightarrow> frame_id_t \<Rightarrow> nat list" where
  "history_of r f = (case find_node (node_store r) f of None \<Rightarrow> [] | Some node \<Rightarrow> history node)"

definition is_read_call :: "disk_call \<Rightarrow> bool" where
  "is_read_call c = (case c of ReadPageCall p \<Rightarrow> True | _ \<Rightarrow> False)"

text \<open>
  A replacer for 7 frames with \<open>k = 2\<close>: frame 1 is first seen by a scan, frame 0 is
  accessed twice, then frame 1 once; both are made evictable.
\<close>

definition replacer_scenario :: "error + LRUKReplacer" where
  "replacer_scenario =
     then_do (RecordAccess (LRUKReplacer_init 7 2) 1 Scan) (\<lambda>r1.
     then_do (RecordAccess r1 0 Unknown) (\<lambda>r2.
     then_do (RecordAccess r2 0 Unknown) (\<lambda>r3.
     then_do (RecordAccess r3 1 Unknown) (\<lambda>r4.
     then_do (SetEvictable r4 0 True) (\<lambda>r5.
     SetEvictable r5 1 True)))))"

text \<open>
  A pool of one frame with 4-byte pages. Page 0 is allocated, written with the bytes
  1, 2, 3, 4 through a write guard and flushed; page 1 is allocated (which takes the only
  frame), read and released; then page 0 is fetched again. The result is the guard, what
  \<^verbatim>\<open>GetData\<close> shows through it, and the pool.
\<close>

definition refetch_scenario ::
  "error + ((PageGuard option \<times> (error + byte list)) \<times> BufferPoolManager)" where
  "refetch_scenario =
     then_do (NewPage (BufferPoolManager_init 1 2 4)) (\<lambda>(p0, s1).
     then_do (CheckedWritePage s1 p0 Unknown) (\<lambda>(w, s2).
     then_do (GetDataMut_store s2 (the w) [1, 2, 3, 4]) (\<lambda>s3.
     then_do (WritePageGuard_Drop s3 (the w)) (\<lambda>(w', s4).
     then_do (FlushPage s4 p0) (\<lambda>(flushed, s5).
     then_do (NewPage s5) (\<lambda>(p1, s6).
     then_do (CheckedReadPage s6 p1 Unknown) (\<lambda>(g1, s7).
     then_do (ReadPageGuard_Drop s7 (the g1)) (\<lambda>(g1', s8).
     then_do (CheckedReadPage s8 p0 Unknown) (\<lambda>(g0, s9).
     Inr ((g0, GetData s9 (the g0)), s9))))))))))"

text \<open>
  A pool of one frame: page 0 is allocated, read and released; page 1 is allocated, read
  and released; then page 0 is read again, which evicts the frame that holds page 1.
\<close>

definition evict_scenario :: "error + (PageGuard option \<times> BufferPoolManager)" where
  "evict_scenario =
     then_do (NewPage (BufferPoolManager_init 1 2 4)) (\<lambda>(p0, s1).
     then_do (CheckedReadPage s1 p0 Unknown) (\<lambda>(g0, s2).
     then_do (ReadPageGuard_Drop s2 (the g0)) (\<lambda>(g0', s3).
     then_do (NewPage s3) (\<lambda>(p1, s4).
     then_do (CheckedReadPage s4 p1 Unknown) (\<lambda>(g1, s5).
     then_do (ReadPageGuard_Drop s5 (the g1)) (\<lambda>(g1', s6).
     CheckedReadPage s6 p0 Unknown))))))"

text \<open>
  The three summands of the frame-accounting invariant: pinned frames, free frames,
  \<^verbatim>\<open>replacer_->Size()\<close>.
\<close>

definition frame_accounting :: "BufferPoolManager \<Rightarrow> nat \<times> nat \<times> nat" where
  "frame_accounting s = (pinned_frames s, length (free_frames s), Size (replacer s))"

text \<open>
  A pool of two frames: page 0 is allocated, read and released, so that frame 0 is
  evictable and frame 1 is still free.
\<close>

definition one_page_released :: "error + BufferPoolManager" where
  "one_page_released =
     then_do (NewPage (BufferPoolManager_init 2 2 4)) (\<lambda>(p0, s1).
     then_do (CheckedReadPage s1 p0 Unknown) (\<lambda>(g0, s2).
     then_do (ReadPageGuard_Drop s2 (the g0)) (\<lambda>(g0', s3).
     Inr s3)))"

text \<open>A pool of one frame: page 0 is allocated and a read guard on it is taken.\<close>

definition read_guard_scenario :: "error + (PageGuard option \<times> BufferPoolManager)" where
  "read_guard_scenario =
     then_do (NewPage (BufferPoolManager_init 1 2 4)) (\<lambda>(p0, s1).
     CheckedReadPage s1 p0 Unknown)"

definition write_guard_scenario :: "error + (PageGuard option \<times> BufferPoolManager)" where
  "write_guard_scenario =
     then_do (NewPage (BufferPoolManager_init 1 2 4)) (\<lambda>(p0, s1).
     CheckedWritePage s1 p0 Unknown)"

section \<open>Unfolding the model on concrete inputs\<close>

lemmas replacer_defs = then_do_def RecordAccess_def SetEvictable_def SetEvictable_flags_def
  Evict_def Remove_def LRUKReplacer_init_def size_t_of_int_def find_node_def default_node_def
  size_inc_def size_dec_def size_sub_def erase_node_def update_node_def INVALID_PAGE_ID_def
  Size_def evictable_count_def

lemmas pool_defs = NewPage_def DeletePage_def FlushPage_def GetPinCount_def CheckedReadPage_def
  CheckedWritePage_def pick_frame_def BufferPoolManager_init_def FrameHeader_init_def Reset_def
  frame_at_def frame_upd_def emplace_def IncreaseDiskSpace_def DeallocatePage_def Schedule_def
  pinned_frames_def

lemmas guard_defs = ReadPageGuard_ctor_def WritePageGuard_ctor_def ReadPageGuard_Drop_def
  WritePageGuard_Drop_def ReadPageGuard_move_ctor_def WritePageGuard_move_ctor_def
  guard_touch_def take_fields_def release_pointers_def PageGuard_default_def GetData_def
  GetPageId_def GetDataMut_store_def

section \<open>Properties of the replacer\<close>

lemma size_sub_less: "b < a \<Longrightarrow> a < 2 ^ 64 \<Longrightarrow> size_sub a b = a - b"
  unfolding size_sub_def by (simp add: mod_if)

lemma size_dec_pos: "0 < n \<Longrightarrow> n < 2 ^ 64 \<Longrightarrow> size_dec n = n - 1"
  unfolding size_dec_def by (simp add: mod_if)

lemma size_inc_small: "n + 1 < 2 ^ 64 \<Longrightarrow> size_inc n = n + 1"
  unfolding size_inc_def by simp

lemma Evict_loop_step:
  "is_evictable node \<Longrightarrow>
   Evict_loop k now ((f_id, node) # xs) es isinf m a = (es', a') \<Longrightarrow>
   (es', a') = (True, f_id) \<or>
   (\<exists>isinf0 m0 a0. Evict_loop k now xs True isinf0 m0 a0 = (es', a') \<and> (a0 = a \<or> a0 = f_id))"
  by (simp add: Let_def split: if_splits) blast+

lemma Evict_loop_ans:
  "Evict_loop k now xs es isinf m a = (es', a') \<Longrightarrow>
   a' = a \<or> (\<exists>node. (a', node) \<in> set xs \<and> is_evictable node)"
proof (induction xs arbitrary: es isinf m a)
  case Nil
  then show ?case by simp
next
  case (Cons p xs)
  obtain f_id node where p: "p = (f_id, node)" by (cases p)
  show ?case
  proof (cases "is_evictable node")
    case False
    with Cons.prems p have "Evict_loop k now xs es isinf m a = (es', a')" by simp
    from Cons.IH [OF this] show ?thesis by auto
  next
    case True
    from Evict_loop_step [OF True Cons.prems [unfolded p]]
    show ?thesis
    proof
      assume "(es', a') = (True, f_id)"
      with True p show ?thesis by auto
    next
      assume "\<exists>isinf0 m0 a0. Evict_loop k now xs True isinf0 m0 a0 = (es', a') \<and> (a0 = a \<or> a0 = f_id)"
      then obtain isinf0 m0 a0 where run: "Evict_loop k now xs True isinf0 m0 a0 = (es', a')"
        and a0: "a0 = a \<or> a0 = f_id" by blast
      from Cons.IH [OF run] a0 True p show ?thesis by auto
    qed
  qed
qed

lemma Evict_loop_success:
  "Evict_loop k now xs es isinf m a = (es', a') \<Longrightarrow>
   es' = (es \<or> (\<exists>p \<in> set xs. is_evictable (snd p)))"
proof (induction xs arbitrary: es isinf m a)
  case Nil
  then show ?case by simp
next
  case (Cons p xs)
  obtain f_id node where p: "p = (f_id, node)" by (cases p)
  show ?case
  proof (cases "is_evictable node")
    case False
    with Cons.prems p have "Evict_loop k now xs es isinf m a = (es', a')" by simp
    from Cons.IH [OF this] False p show ?thesis by auto
  next
    case True
    from Evict_loop_step [OF True Cons.prems [unfolded p]]
    show ?thesis
    proof
      assume "(es', a') = (True, f_id)"
      with True p show ?thesis by auto
    next
      assume "\<exists>isinf0 m0 a0. Evict_loop k now xs True isinf0 m0 a0 = (es', a') \<and> (a0 = a \<or> a0 = f_id)"
      then obtain isinf0 m0 a0 where run: "Evict_loop k now xs True isinf0 m0 a0 = (es', a')"
        by blast
      from Cons.IH [OF run] True p show ?thesis by simp
    qed
  qed
qed

lemma Evict_loop_finds:
  assumes "list_all (node_wf k now) xs" and "now < 2 ^ 64"
    and "\<exists>p \<in> set xs. is_evictable (snd p)"
    and "Evict_loop k now xs es False 0 a = (es', a')"
  shows "\<exists>node. (a', node) \<in> set xs \<and> is_evictable node"
  using assms
proof (induction xs arbitrary: es a)
  case Nil
  then show ?case by simp
next
  case (Cons p xs)
  obtain f_id node where p: "p = (f_id, node)" by (cases p)
  show ?case
  proof (cases "is_evictable node")
    case False
    with Cons.prems p have run: "Evict_loop k now xs es False 0 a = (es', a')"
      and ex: "\<exists>p \<in> set xs. is_evictable (snd p)"
      and wf: "list_all (node_wf k now) xs" by auto
    from Cons.IH [OF wf Cons.prems(2) ex run] show ?thesis by auto
  next
    case True
    show ?thesis
    proof (cases "history node = []")
      case True
      with \<open>is_evictable node\<close> Cons.prems(4) p show ?thesis by auto
    next
      case False
      from Cons.prems(1) p have len: "length (history node) \<le> k"
        and old: "list_all (\<lambda>t. t < now) (history node)" by (auto simp: node_wf_def)
      from False old have "hd (history node) < now"
        by (cases "history node") auto
      with Cons.prems(2) have pos: "0 < size_sub now (hd (history node))"
        by (simp add: size_sub_less)
      from len have "length (history node) = k \<or> length (history node) < k" by arith
      with Cons.prems(4) p True False pos
      have "\<exists>isinf m. Evict_loop k now xs True isinf m f_id = (es', a')"
        by (auto simp: Let_def split: if_splits)
      then obtain isinf m where "Evict_loop k now xs True isinf m f_id = (es', a')" by blast
      from Evict_loop_ans [OF this] True p show ?thesis by auto
    qed
  qed
qed



subsection \<open>The well-formedness invariant is kept\<close>

lemma node_wf_mono: "node_wf k now p \<Longrightarrow> now \<le> now' \<Longrightarrow> node_wf k now' p"
  by (auto simp: node_wf_def list_all_iff)

lemma keys_update_node: "map fst (update_node f g store) = map fst store"
  by (induction store) (auto simp: update_node_def)

lemma update_untracked: "f \<notin> fst ` set store \<Longrightarrow> update_node f g store = store"
  by (induction store) (auto simp: update_node_def)

lemma erase_untracked: "f \<notin> fst ` set store \<Longrightarrow> erase_node f store = store"
  by (induction store) (auto simp: erase_node_def)

lemma count_update_same:
  "(\<And>n. is_evictable (g n) = is_evictable n) \<Longrightarrow>
   length (filter (\<lambda>p. is_evictable (snd p)) (update_node f g store)) =
   length (filter (\<lambda>p. is_evictable (snd p)) store)"
  by (induction store) (auto simp: update_node_def)

lemma count_update_flag:
  "distinct (map fst store) \<Longrightarrow> map_of store f = Some node \<Longrightarrow>
   length (filter (\<lambda>p. is_evictable (snd p)) (update_node f (\<lambda>n. node') store)) +
     (if is_evictable node then 1 else 0) =
   length (filter (\<lambda>p. is_evictable (snd p)) store) + (if is_evictable node' then 1 else 0)"
proof (induction store)
  case Nil
  then show ?case by simp
next
  case (Cons p store)
  show ?case
  proof (cases "fst p = f")
    case True
    with Cons.prems have "f \<notin> fst ` set store" and "snd p = node" by auto
    then have "update_node f (\<lambda>n. node') store = store"
      by (simp add: update_untracked)
    with True \<open>snd p = node\<close> show ?thesis
      by (cases p) (auto simp: update_node_def)
  next
    case False
    with Cons show ?thesis by (cases p) (auto simp: update_node_def)
  qed
qed

lemma count_erase:
  "distinct (map fst store) \<Longrightarrow> map_of store f = Some node \<Longrightarrow>
   length (filter (\<lambda>p. is_evictable (snd p)) (erase_node f store)) +
     (if is_evictable node then 1 else 0) =
   length (filter (\<lambda>p. is_evictable (snd p)) store)"
proof (induction store)
  case Nil
  then show ?case by simp
next
  case (Cons p store)
  show ?case
  proof (cases "fst p = f")
    case True
    with Cons.prems have "f \<notin> fst ` set store" and "snd p = node" by auto
    then have "erase_node f store = store"
      by (simp add: erase_untracked)
    with True \<open>snd p = node\<close> show ?thesis
      by (cases p) (auto simp: erase_node_def)
  next
    case False
    with Cons show ?thesis by (cases p) (auto simp: erase_node_def)
  qed
qed

lemma wf_nodes_erase:
  "list_all (node_wf k now) store \<Longrightarrow> list_all (node_wf k now) (erase_node f store)"
  by (simp add: erase_node_def list_all_iff)

lemma distinct_erase: "distinct (map fst store) \<Longrightarrow> distinct (map fst (erase_node f store))"
  by (simp add: erase_node_def distinct_map_filter)

lemma wf_nodes_update:
  "list_all (node_wf k now) store \<Longrightarrow>
   (\<And>n. (f, n) \<in> set store \<Longrightarrow> node_wf k now' (f, g n)) \<Longrightarrow> now \<le> now' \<Longrightarrow>
   list_all (node_wf k now') (update_node f g store)"
  by (auto simp: update_node_def list_all_iff intro: node_wf_mono)

lemma range_not_invalid:
  "size_t_of_int f \<le> n \<Longrightarrow> n < 2 ^ 64 - 1 \<Longrightarrow> f \<noteq> INVALID_PAGE_ID"
  by (auto simp: size_t_of_int_def INVALID_PAGE_ID_def)

lemma replacer_wf_init: "n < 2 ^ 64 - 1 \<Longrightarrow> replacer_wf (LRUKReplacer_init n k)"
  by (simp add: replacer_wf_def LRUKReplacer_init_def evictable_count_def)

lemma replacer_wf_Evict:
  assumes wf: "replacer_wf r"
  shows "replacer_wf (snd (Evict r))"
proof -
  obtain es a where run:
    "Evict_loop (k_dist r) (current_timestamp r) (node_store r) False False 0 INVALID_PAGE_ID = (es, a)"
    by (cases "Evict_loop (k_dist r) (current_timestamp r) (node_store r) False False 0 INVALID_PAGE_ID")
  show ?thesis
  proof (cases es)
    case False
    with run wf show ?thesis by (simp add: Evict_def)
  next
    case True
    with Evict_loop_success [OF run] have ex: "\<exists>p \<in> set (node_store r). is_evictable (snd p)"
      by simp
    from wf have nodes: "list_all (node_wf (k_dist r) (current_timestamp r)) (node_store r)"
      and now: "current_timestamp r < 2 ^ 64"
      and dist: "distinct (map fst (node_store r))"
      and cnt: "evictable_count r \<le> curr_size r" and cs: "curr_size r < 2 ^ 64"
      and rs: "replacer_size r < 2 ^ 64 - 1"
      by (simp_all add: replacer_wf_def)
    from Evict_loop_finds [OF nodes now ex run]
    obtain node where mem: "(a, node) \<in> set (node_store r)" and ev: "is_evictable node" by blast
    from dist mem have found: "map_of (node_store r) a = Some node" by simp
    from count_erase [OF dist found] ev
    have c: "length (filter (\<lambda>p. is_evictable (snd p)) (erase_node a (node_store r))) + 1 =
             evictable_count r"
      by (simp add: evictable_count_def)
    with cnt have pos: "0 < curr_size r" by simp
    with cs have dec: "size_dec (curr_size r) = curr_size r - 1" by (simp add: size_dec_pos)
    from c cnt cs have le: "length (filter (\<lambda>p. is_evictable (snd p)) (erase_node a (node_store r)))
        \<le> curr_size r - 1" and lt: "curr_size r - 1 < 2 ^ 64" by simp_all
    from run True nodes now dist rs dec le lt show ?thesis
      by (simp add: Evict_def replacer_wf_def evictable_count_def wf_nodes_erase distinct_erase)
  qed
qed

lemma replacer_wf_Remove:
  assumes wf: "replacer_wf r" and run: "Remove r f = Inr r'"
  shows "replacer_wf r'"
proof (cases "find_node (node_store r) f")
  case None
  with run wf show ?thesis by (simp add: Remove_def)
next
  case (Some node)
  with run have ev: "is_evictable node"
    and r': "r' = r\<lparr>node_store := erase_node f (node_store r), curr_size := size_dec (curr_size r)\<rparr>"
    by (auto simp: Remove_def split: if_splits)
  from wf have nodes: "list_all (node_wf (k_dist r) (current_timestamp r)) (node_store r)"
    and now: "current_timestamp r < 2 ^ 64"
    and dist: "distinct (map fst (node_store r))"
    and cnt: "evictable_count r \<le> curr_size r" and cs: "curr_size r < 2 ^ 64"
    and rs: "replacer_size r < 2 ^ 64 - 1"
    by (simp_all add: replacer_wf_def)
  from Some have found: "map_of (node_store r) f = Some node" by (simp add: find_node_def)
  from count_erase [OF dist found] ev
  have c: "length (filter (\<lambda>p. is_evictable (snd p)) (erase_node f (node_store r))) + 1 =
           evictable_count r"
    by (simp add: evictable_count_def)
  with cnt have pos: "0 < curr_size r" by simp
  with cs have dec: "size_dec (curr_size r) = curr_size r - 1" by (simp add: size_dec_pos)
  from c cnt cs have le: "length (filter (\<lambda>p. is_evictable (snd p)) (erase_node f (node_store r)))
      \<le> curr_size r - 1" and lt: "curr_size r - 1 < 2 ^ 64" by simp_all
  from r' nodes now dist rs dec le lt show ?thesis
    by (simp add: replacer_wf_def evictable_count_def wf_nodes_erase distinct_erase)
qed

lemma replacer_wf_SetEvictable:
  assumes wf: "replacer_wf r" and room: "curr_size r + 1 < 2 ^ 64"
    and run: "SetEvictable r f b = Inr r'"
  shows "replacer_wf r'"
proof -
  from wf have nodes: "list_all (node_wf (k_dist r) (current_timestamp r)) (node_store r)"
    and now: "current_timestamp r < 2 ^ 64"
    and dist: "distinct (map fst (node_store r))"
    and cnt: "evictable_count r \<le> curr_size r" and cs: "curr_size r < 2 ^ 64"
    and rs: "replacer_size r < 2 ^ 64 - 1"
    by (simp_all add: replacer_wf_def)
  from run have range: "size_t_of_int f \<le> replacer_size r"
    by (auto simp: SetEvictable_def Let_def split: if_splits)
  from range rs have valid: "f \<noteq> INVALID_PAGE_ID" by (rule range_not_invalid)
  from room have inc: "size_inc (curr_size r) = curr_size r + 1" by (simp add: size_inc_small)
  show ?thesis
  proof (cases "find_node (node_store r) f")
    case None
    then have fresh: "f \<notin> fst ` set (node_store r)"
      by (simp add: find_node_def map_of_eq_None_iff)
    from None run range have r': "r' = r\<lparr>node_store := (f, default_node) # node_store r,
        curr_size := (if b then size_inc (curr_size r) else curr_size r)\<rparr>"
      by (auto simp: SetEvictable_def SetEvictable_flags_def default_node_def)
    with nodes now dist cnt cs rs valid fresh inc room show ?thesis
      by (auto simp: replacer_wf_def evictable_count_def node_wf_def default_node_def)
  next
    case (Some node)
    then have found: "map_of (node_store r) f = Some node" by (simp add: find_node_def)
    then have mem: "(f, node) \<in> set (node_store r)" by (rule map_of_SomeD)
    with nodes have nwf: "node_wf (k_dist r) (current_timestamp r) (f, node)"
      by (auto simp: list_all_iff)
    obtain node' cs' where fl: "SetEvictable_flags node b (curr_size r) = (node', cs')"
      by (cases "SetEvictable_flags node b (curr_size r)")
    with Some run range have r': "r' = r\<lparr>node_store := update_node f (\<lambda>n. node') (node_store r),
        curr_size := cs'\<rparr>"
      by (auto simp: SetEvictable_def)
    from fl have hist: "history node' = history node"
      by (auto simp: SetEvictable_flags_def split: if_splits)
    with nwf have nwf': "node_wf (k_dist r) (current_timestamp r) (f, node')"
      by (simp add: node_wf_def)
    have nodes': "list_all (node_wf (k_dist r) (current_timestamp r))
                    (update_node f (\<lambda>n. node') (node_store r))"
      by (rule wf_nodes_update [OF nodes]) (use nwf' in auto)
    note c = count_update_flag [OF dist found, of node']
    have "evictable_count r' \<le> cs' \<and> cs' < 2 ^ 64"
    proof (cases "is_evictable node = b")
      case True
      with fl have "node' = node" "cs' = curr_size r"
        by (auto simp: SetEvictable_flags_def split: if_splits)
      with c cnt cs r' show ?thesis by (simp add: evictable_count_def)
    next
      case False
      show ?thesis
      proof (cases b)
        case True
        with False fl have "is_evictable node'" "\<not> is_evictable node" "cs' = size_inc (curr_size r)"
          by (auto simp: SetEvictable_flags_def)
        with c cnt inc room r' show ?thesis by (simp add: evictable_count_def)
      next
        case bf: False
        with False fl have e: "\<not> is_evictable node'" "is_evictable node" "cs' = size_dec (curr_size r)"
          by (auto simp: SetEvictable_flags_def)
        with c cnt have "0 < curr_size r" by (simp add: evictable_count_def)
        with cs have dec: "size_dec (curr_size r) = curr_size r - 1" by (simp add: size_dec_pos)
        from e c cnt cs
        have "length (filter (\<lambda>p. is_evictable (snd p))
                (update_node f (\<lambda>n. node') (node_store r))) \<le> curr_size r - 1"
          and "curr_size r - 1 < 2 ^ 64"
          by (simp_all add: evictable_count_def)
        with e dec r' show ?thesis by (simp add: evictable_count_def)
      qed
    qed
    with r' nodes' now dist rs show ?thesis
      by (simp add: replacer_wf_def keys_update_node)
  qed
qed

lemma replacer_wf_RecordAccess:
  assumes wf: "replacer_wf r" and k: "1 \<le> k_dist r"
    and room: "current_timestamp r + 1 < 2 ^ 64"
    and run: "RecordAccess r f access_type = Inr r'"
  shows "replacer_wf r'"
proof -
  from wf have nodes: "list_all (node_wf (k_dist r) (current_timestamp r)) (node_store r)"
    and dist: "distinct (map fst (node_store r))"
    and cnt: "evictable_count r \<le> curr_size r" and cs: "curr_size r < 2 ^ 64"
    and rs: "replacer_size r < 2 ^ 64 - 1"
    by (simp_all add: replacer_wf_def)
  from run have range: "size_t_of_int f \<le> replacer_size r"
    by (auto simp: RecordAccess_def Let_def split: if_splits)
  from range rs have valid: "f \<noteq> INVALID_PAGE_ID" by (rule range_not_invalid)
  from room have inc: "size_inc (current_timestamp r) = current_timestamp r + 1"
    by (simp add: size_inc_small)
  have later: "list_all (node_wf (k_dist r) (current_timestamp r + 1)) (node_store r)"
    using nodes by (auto simp: list_all_iff intro: node_wf_mono)
  show ?thesis
  proof (cases "find_node (node_store r) f")
    case None
    then have fresh: "f \<notin> fst ` set (node_store r)"
      by (simp add: find_node_def map_of_eq_None_iff)
    from None run range nodes later dist cnt cs rs valid fresh inc room k show ?thesis
      by (auto simp: RecordAccess_def replacer_wf_def evictable_count_def node_wf_def
            default_node_def split: if_splits)
  next
    case (Some node)
    then have found: "map_of (node_store r) f = Some node" by (simp add: find_node_def)
    then have mem: "(f, node) \<in> set (node_store r)" by (rule map_of_SomeD)
    with nodes have nwf: "node_wf (k_dist r) (current_timestamp r) (f, node)"
      by (auto simp: list_all_iff)
    show ?thesis
    proof (cases "access_type = Scan")
      case True
      with Some run range wf show ?thesis by (simp add: RecordAccess_def)
    next
      case False
      define h where "h = (if length (history node) = k_dist r then tl (history node)
                           else history node) @ [current_timestamp r]"
      from Some run range False k have r': "r' = r\<lparr>node_store :=
            update_node f (\<lambda>n. n\<lparr>history := h\<rparr>) (node_store r),
          current_timestamp := size_inc (current_timestamp r)\<rparr>"
        by (auto simp: RecordAccess_def h_def split: if_splits list.splits)
      from nwf k have hwf: "length h \<le> k_dist r \<and> list_all (\<lambda>t. t < current_timestamp r + 1) h"
        by (cases "history node") (auto simp: h_def node_wf_def list_all_iff)
      have nodes': "list_all (node_wf (k_dist r) (current_timestamp r + 1))
                      (update_node f (\<lambda>n. n\<lparr>history := h\<rparr>) (node_store r))"
        by (rule wf_nodes_update [OF nodes]) (use hwf valid in \<open>auto simp: node_wf_def\<close>)
      have "length (filter (\<lambda>p. is_evictable (snd p))
              (update_node f (\<lambda>n. n\<lparr>history := h\<rparr>) (node_store r))) = evictable_count r"
        unfolding evictable_count_def by (rule count_update_same) simp
      with r' nodes' dist cnt cs rs inc room show ?thesis
        by (simp add: replacer_wf_def keys_update_node evictable_count_def)
    qed
  qed
qed

subsection \<open>Eviction\<close>





subsection \<open>Recording an access\<close>

lemma find_node_update:
  "find_node (update_node f g store) f' =
     (if f' = f then map_option g (find_node store f) else find_node store f')"
  by (induction store) (auto simp: find_node_def update_node_def)

text \<open>
  C6, as the code has it. For a frame id that passes the range assertion, with \<open>k\<close> at
  least 1 and the frame's history no longer than \<open>k\<close>: \<^verbatim>\<open>RecordAccess\<close> returns,
  and afterwards the frame is tracked (the node is created on the first access, whatever
  the access type). When the access type is not \<^verbatim>\<open>Scan\<close>, the current timestamp is
  appended to the history, the oldest entry being dropped first when the history already
  holds \<open>k\<close>, so the length stays at most \<open>k\<close>, and the global timestamp advances by
  one (modulo \<open>2 ^ 64\<close>). When the access type is \<^verbatim>\<open>Scan\<close>, the history and the
  global timestamp are both left as they were. In every case \<open>k\<close>, \<^verbatim>\<open>curr_size_\<close> and
  the nodes of all other frames stay as they were.
\<close>

theorem RecordAccess_effect:
  assumes range: "size_t_of_int f \<le> replacer_size r"
    and k: "1 \<le> k_dist r"
    and len: "length (history_of r f) \<le> k_dist r"
  shows "\<exists>r'. RecordAccess r f access_type = Inr r' \<and>
           tracked r' f \<and>
           length (history_of r' f) \<le> k_dist r \<and>
           history_of r' f =
             (if access_type = Scan then history_of r f
              else (if length (history_of r f) = k_dist r
                    then tl (history_of r f) else history_of r f)
                   @ [current_timestamp r]) \<and>
           current_timestamp r' =
             (if access_type = Scan then current_timestamp r
              else (current_timestamp r + 1) mod 2 ^ 64) \<and>
           k_dist r' = k_dist r \<and> curr_size r' = curr_size r \<and>
           (\<forall>g. g \<noteq> f \<longrightarrow> find_node (node_store r') g = find_node (node_store r) g)"
proof (cases "find_node (node_store r) f")
  case None
  with range k show ?thesis
    by (simp add: RecordAccess_def tracked_def history_of_def find_node_def default_node_def size_inc_def)
next
  case (Some node)
  show ?thesis
  proof (cases "access_type = Scan")
    case True
    with Some range len show ?thesis
      by (simp add: RecordAccess_def tracked_def history_of_def)
  next
    case False
    show ?thesis
    proof (cases "length (history node) = k_dist r")
      case True
      with k obtain t ts where h: "history node = t # ts" by (cases "history node") auto
      with Some range len False True show ?thesis
        by (simp add: RecordAccess_def tracked_def history_of_def find_node_update size_inc_def)
    next
      case neq: False
      with Some range len False show ?thesis
        by (simp add: RecordAccess_def tracked_def history_of_def find_node_update size_inc_def)
    qed
  qed
qed

theorem RecordAccess_effect_witness:
  "size_t_of_int 1 \<le> replacer_size (LRUKReplacer_init 7 2) \<and>
   1 \<le> k_dist (LRUKReplacer_init 7 2) \<and>
   length (history_of (LRUKReplacer_init 7 2) 1) \<le> k_dist (LRUKReplacer_init 7 2) \<and>
   RecordAccess (LRUKReplacer_init 7 2) 1 Lookup =
     Inr \<lparr>node_store = [(1, \<lparr>history = [0], is_evictable = False\<rparr>)],
          current_timestamp = 1, curr_size = 0, replacer_size = 7, k_dist = 2\<rparr>"
proof -
  have a: "size_t_of_int 1 \<le> replacer_size (LRUKReplacer_init 7 2)"
    by (simp add: size_t_of_int_def LRUKReplacer_init_def)
  have b: "1 \<le> k_dist (LRUKReplacer_init 7 2)"
    by (simp add: LRUKReplacer_init_def)
  have c: "length (history_of (LRUKReplacer_init 7 2) 1) \<le> k_dist (LRUKReplacer_init 7 2)"
    by (simp add: history_of_def LRUKReplacer_init_def find_node_def)
  from RecordAccess_effect [OF a b c, of Lookup]
  obtain r' where "RecordAccess (LRUKReplacer_init 7 2) 1 Lookup = Inr r'" by blast
  moreover have "RecordAccess (LRUKReplacer_init 7 2) 1 Lookup =
     Inr \<lparr>node_store = [(1, \<lparr>history = [0], is_evictable = False\<rparr>)],
          current_timestamp = 1, curr_size = 0, replacer_size = 7, k_dist = 2\<rparr>"
    by (simp add: RecordAccess_def LRUKReplacer_init_def size_t_of_int_def find_node_def
          default_node_def size_inc_def)
  ultimately show ?thesis using a b c by simp
qed

text \<open>
  C6 as stated fails on a scan: \<^verbatim>\<open>RecordAccess(1, Scan)\<close> on a fresh replacer
  creates the node and returns with the global timestamp still 0.
\<close>

theorem RecordAccess_Scan_counterexample:
  "current_timestamp (LRUKReplacer_init 7 2) = 0 \<and>
   RecordAccess (LRUKReplacer_init 7 2) 1 Scan =
     Inr \<lparr>node_store = [(1, \<lparr>history = [], is_evictable = False\<rparr>)],
          current_timestamp = 0, curr_size = 0, replacer_size = 7, k_dist = 2\<rparr>"
  by (simp add: RecordAccess_def LRUKReplacer_init_def size_t_of_int_def find_node_def
        default_node_def)

subsection \<open>The choice of the victim, and the size counter\<close>

text \<open>
  C3 on a concrete replacer. After \<open>replacer_scenario\<close> frame 0 has \<open>k = 2\<close>
  recorded accesses and frame 1 has one, both are evictable, and the map iterates frame 0
  first. The loop takes frame 0 with distance \<open>3 - 0 = 3\<close>; at frame 1 it sets
  \<^verbatim>\<open>is_inf\<close> but compares frame 1's distance \<open>3 - 2 = 1\<close> with the
  \<^verbatim>\<open>max_delta_time\<close> left by frame 0, so frame 0 stays the answer: \<^verbatim>\<open>Evict\<close>
  returns the frame with \<open>k\<close> accesses although a frame with fewer is evictable.
\<close>

theorem Evict_keeps_full_history_frame:
  "replacer_scenario =
     Inr \<lparr>node_store = [(0, \<lparr>history = [0, 1], is_evictable = True\<rparr>),
                         (1, \<lparr>history = [2], is_evictable = True\<rparr>)],
          current_timestamp = 3, curr_size = 2, replacer_size = 7, k_dist = 2\<rparr> \<and>
   fst (Evict \<lparr>node_store = [(0, \<lparr>history = [0, 1], is_evictable = True\<rparr>),
                              (1, \<lparr>history = [2], is_evictable = True\<rparr>)],
               current_timestamp = 3, curr_size = 2, replacer_size = 7, k_dist = 2\<rparr>) = Some 0"
  by (simp add: replacer_scenario_def replacer_defs)

text \<open>
  On a frame that is tracked, \<^verbatim>\<open>SetEvictable\<close> with the flag the node already has
  changes nothing.
\<close>

lemma update_node_same:
  "distinct (map fst store) \<Longrightarrow> map_of store f = Some node \<Longrightarrow>
   update_node f (\<lambda>n. node) store = store"
proof (induction store)
  case Nil
  then show ?case by simp
next
  case (Cons p store)
  show ?case
  proof (cases "fst p = f")
    case True
    with Cons.prems have fresh: "f \<notin> fst ` set store" and "snd p = node" by auto
    from fresh have "update_node f (\<lambda>n. node) store = store" by (rule update_untracked)
    with True \<open>snd p = node\<close> show ?thesis
      by (cases p) (simp add: update_node_def)
  next
    case False
    with Cons show ?thesis by (cases p) (auto simp: update_node_def)
  qed
qed

lemma SetEvictable_same_flag:
  assumes "distinct (map fst (node_store r))"
    and "find_node (node_store r) f = Some node"
    and "is_evictable node = b"
    and "size_t_of_int f \<le> replacer_size r"
  shows "SetEvictable r f b = Inr r"
  using assms
  by (auto simp: SetEvictable_def SetEvictable_flags_def find_node_def update_node_same)

text \<open>
  C7 on a concrete replacer. \<^verbatim>\<open>SetEvictable(1, true)\<close> on a fresh replacer, where
  frame 1 is not tracked: the node stored in the map is not evictable, and \<^verbatim>\<open>Size()\<close>
  is 1 while no tracked node is evictable. A second, identical call then finds the node
  with the flag clear, sets it and counts again: \<^verbatim>\<open>Size()\<close> becomes 2.
\<close>

theorem SetEvictable_untracked_counts:
  "SetEvictable (LRUKReplacer_init 7 2) 1 True =
     Inr \<lparr>node_store = [(1, \<lparr>history = [], is_evictable = False\<rparr>)],
          current_timestamp = 0, curr_size = 1, replacer_size = 7, k_dist = 2\<rparr> \<and>
   Size \<lparr>node_store = [(1, \<lparr>history = [], is_evictable = False\<rparr>)],
         current_timestamp = 0, curr_size = 1, replacer_size = 7, k_dist = 2\<rparr> = 1 \<and>
   evictable_count \<lparr>node_store = [(1, \<lparr>history = [], is_evictable = False\<rparr>)],
         current_timestamp = 0, curr_size = 1, replacer_size = 7, k_dist = 2\<rparr> = 0 \<and>
   SetEvictable \<lparr>node_store = [(1, \<lparr>history = [], is_evictable = False\<rparr>)],
         current_timestamp = 0, curr_size = 1, replacer_size = 7, k_dist = 2\<rparr> 1 True =
     Inr \<lparr>node_store = [(1, \<lparr>history = [], is_evictable = True\<rparr>)],
          current_timestamp = 0, curr_size = 2, replacer_size = 7, k_dist = 2\<rparr>"
  by (simp add: replacer_defs)

section \<open>Properties of the buffer pool manager\<close>

subsection \<open>Guards\<close>

text \<open>
  What the guard operations leave alone, and what the move constructors do to the guard
  they move from, in any pool.
\<close>

lemma guard_touch_frame:
  "guard_touch s g = Inr s' \<Longrightarrow>
   frames s' = frames s \<and> disk_scheduler s' = disk_scheduler s \<and> page_table s' = page_table s \<and>
   free_frames s' = free_frames s"
  by (auto simp: guard_touch_def then_do_def split: option.splits if_splits sum.splits)

lemma ReadPageGuard_ctor_frame:
  "ReadPageGuard_ctor s p i = Inr (g, s') \<Longrightarrow>
   frames s' = frames s \<and> disk_scheduler s' = disk_scheduler s \<and> page_table s' = page_table s \<and>
   guard_frame g = Some i \<and> is_valid g"
  by (auto simp: ReadPageGuard_ctor_def then_do_def Let_def split: sum.splits dest: guard_touch_frame)

lemma ReadPageGuard_move_ctor_frame:
  "ReadPageGuard_move_ctor s u that = Inr (this, that', s') \<Longrightarrow> is_valid that \<Longrightarrow>
   frames s' = frames s \<and> disk_scheduler s' = disk_scheduler s \<and> page_table s' = page_table s \<and>
   guard_frame this = guard_frame that \<and> is_valid this \<and> guard_frame that' = None"
  by (auto simp: ReadPageGuard_move_ctor_def ReadPageGuard_Drop_def PageGuard_default_def
        take_fields_def release_pointers_def then_do_def Let_def
      split: sum.splits dest: guard_touch_frame)

lemma ReadPageGuard_Drop_null:
  "guard_frame g = None \<Longrightarrow> ReadPageGuard_Drop s g = Inr (g', s') \<Longrightarrow> s' = s"
  by (auto simp: ReadPageGuard_Drop_def split: if_splits)

lemma ReadPageGuard_move_ctor_source:
  "ReadPageGuard_move_ctor s u that = Inr (this, that', s') \<Longrightarrow> is_valid that \<Longrightarrow>
   is_valid that' \<and> guard_frame that' = None"
  by (auto simp: ReadPageGuard_move_ctor_def ReadPageGuard_Drop_def PageGuard_default_def
        take_fields_def release_pointers_def then_do_def Let_def
      split: sum.splits)

lemma WritePageGuard_move_ctor_source:
  "WritePageGuard_move_ctor s u that = Inr (this, that', s') \<Longrightarrow> is_valid that \<Longrightarrow>
   \<not> is_valid that'"
  by (auto simp: WritePageGuard_move_ctor_def PageGuard_default_def
        take_fields_def release_pointers_def then_do_def Let_def
      split: sum.splits)

lemma Drop_invalid:
  "\<not> is_valid g \<Longrightarrow> ReadPageGuard_Drop s g = Inr (g, s) \<and> WritePageGuard_Drop s g = Inr (g, s)"
  by (simp add: ReadPageGuard_Drop_def WritePageGuard_Drop_def)

subsection \<open>Fetching pages\<close>

text \<open>
  C10. \<^verbatim>\<open>CheckedReadPage\<close> and \<^verbatim>\<open>CheckedWritePage\<close> called with the sentinel
  \<^verbatim>\<open>INVALID_PAGE_ID\<close> return none and hand back the pool exactly as it was: page
  table, free list, replacer, frames and disk are untouched.
\<close>

theorem CheckedPage_invalid_id:
  "CheckedReadPage s INVALID_PAGE_ID access_type = Inr (None, s) \<and>
   CheckedWritePage s INVALID_PAGE_ID access_type = Inr (None, s)"
  by (simp add: CheckedReadPage_def CheckedWritePage_def)

text \<open>
  What a successful \<^verbatim>\<open>CheckedReadPage\<close> does for a page that is not in the page
  table, in any pool: the guard is on the chosen frame; the page table loses the key equal
  to that frame's \<^verbatim>\<open>frame_id_\<close> and gains the new page, every other entry stays;
  the buffer seen through the guard is all zero; no read reaches the disk manager.
\<close>

lemma CheckedReadPage_miss:
  assumes miss: "page_table s page_id = None"
    and run: "CheckedReadPage s page_id access_type = Inr (Some g, s')"
  shows "\<exists>fid newpage. guard_frame g = Some fid \<and> frame_at (frames s) fid = Some newpage \<and>
           page_table s' = (page_table s)(frame_id newpage := None, page_id \<mapsto> fid)"
    and "\<exists>n. GetData s' g = Inr (replicate n 0)"
    and "filter is_read_call (disk_calls (disk_scheduler s')) =
         filter is_read_call (disk_calls (disk_scheduler s))"
proof -
  from run have valid: "page_id \<noteq> INVALID_PAGE_ID"
    by (auto simp: CheckedReadPage_def split: if_splits)
  obtain pid s1 where pick: "pick_frame s = (pid, s1)" by (cases "pick_frame s")
  have s1: "frames s1 = frames s \<and> disk_scheduler s1 = disk_scheduler s \<and>
            page_table s1 = page_table s"
    using pick by (auto simp: pick_frame_def Let_def split: prod.splits list.splits)
  from run miss valid pick obtain fid where pid: "pid = Some fid"
    by (cases pid) (auto simp: CheckedReadPage_def)
  from run miss valid pick pid obtain newpage where fa: "frame_at (frames s1) fid = Some newpage"
    by (cases "frame_at (frames s1) fid") (auto simp: CheckedReadPage_def)
  define s2 where
    "s2 = (if is_dirty newpage
           then s1\<lparr>disk_scheduler :=
                      fst (Schedule (disk_scheduler s1)
                             \<lparr>is_write = True, req_data = data newpage,
                              req_page_id = frame_id newpage\<rparr>),
                   frames := frame_upd (frames s1) fid (\<lambda>f. f\<lparr>is_dirty := False\<rparr>)\<rparr>
           else s1)"
  define s5 where
    "s5 = s2\<lparr>page_table := emplace ((page_table s2)(frame_id newpage := None)) page_id fid,
             frames := frame_upd (frames s2) fid Reset\<rparr>"
  from fa have rng: "0 \<le> fid \<and> nat fid < length (frames s1)"
    by (auto simp: frame_at_def split: if_splits)
  have zero5: "data (frames s5 ! nat fid) = replicate (length (data newpage)) 0"
    using fa rng by (auto simp: s5_def s2_def frame_upd_def Reset_def frame_at_def)
  have len5: "length (frames s5) = length (frames s1)"
    by (auto simp: s5_def s2_def frame_upd_def)
  have reads5: "filter is_read_call (disk_calls (disk_scheduler s5)) =
                filter is_read_call (disk_calls (disk_scheduler s1))"
    by (auto simp: s5_def s2_def Schedule_def is_read_call_def)
  have pt5: "page_table s5 = (page_table s)(frame_id newpage := None, page_id \<mapsto> fid)"
    using miss s1 by (auto simp: s5_def s2_def emplace_def)
  from run miss valid pick pid fa
  obtain r1 r2 read_guard s6 result moved_from s8 dead where
      "RecordAccess (replacer s5) fid Unknown = Inr r1"
      "SetEvictable r1 fid False = Inr r2"
      and ctor: "ReadPageGuard_ctor (s5\<lparr>replacer := r2\<rparr>) page_id fid = Inr (read_guard, s6)"
      and mv: "ReadPageGuard_move_ctor
                 (s6\<lparr>frames := frame_upd (frames s6) fid
                                   (\<lambda>f. f\<lparr>pin_count := size_inc (pin_count f)\<rparr>)\<rparr>)
                 page_id (read_guard\<lparr>is_valid := True\<rparr>) = Inr (result, moved_from, s8)"
      and drop: "ReadPageGuard_Drop s8 moved_from = Inr (dead, s')"
      and g: "g = result"
    by (auto simp: CheckedReadPage_def then_do_def Let_def s5_def s2_def
          split: sum.splits prod.splits)
  from ReadPageGuard_ctor_frame [OF ctor]
  have f6: "frames s6 = frames s5" and d6: "disk_scheduler s6 = disk_scheduler s5"
    and p6: "page_table s6 = page_table s5"
    and gf: "guard_frame read_guard = Some fid" by simp_all
  from ReadPageGuard_move_ctor_frame [OF mv]
  have f8: "frames s8 = frame_upd (frames s6) fid (\<lambda>f. f\<lparr>pin_count := size_inc (pin_count f)\<rparr>)"
    and d8: "disk_scheduler s8 = disk_scheduler s6"
    and p8: "page_table s8 = page_table s6"
    and gr: "guard_frame result = guard_frame read_guard" and vr: "is_valid result"
    and mf: "guard_frame moved_from = None" by simp_all
  from ReadPageGuard_Drop_null [OF mf drop] have s': "s' = s8" .
  from pt5 p6 p8 s' gr gf g fa s1
  show "\<exists>fid newpage. guard_frame g = Some fid \<and> frame_at (frames s) fid = Some newpage \<and>
          page_table s' = (page_table s)(frame_id newpage := None, page_id \<mapsto> fid)"
    by simp
  from zero5 len5 rng f6 f8 s' gr gf vr g
  show "\<exists>n. GetData s' g = Inr (replicate n 0)"
    by (auto simp: GetData_def frame_at_def frame_upd_def)
  from reads5 d6 d8 s' s1
  show "filter is_read_call (disk_calls (disk_scheduler s')) =
        filter is_read_call (disk_calls (disk_scheduler s))" by simp
qed

text \<open>
  C1 on a concrete pool. In \<open>refetch_scenario\<close> page 0 holds the bytes 1, 2, 3, 4 on
  disk (the flush wrote them) and is no longer in the page table when it is fetched
  again. The fetch succeeds and returns a valid guard on frame 0, but what the guard shows
  is the zeroed buffer \<^verbatim>\<open>Reset\<close> left: the disk manager was never asked to read,
  its calls are the two \<^verbatim>\<open>IncreaseDiskSpace\<close> and the one write.
\<close>

theorem refetch_shows_zeroes:
  "map_sum id
     (\<lambda>((g, seen), s).
        (g, seen, disk_pages (disk_scheduler s) 0, disk_calls (disk_scheduler s)))
     refetch_scenario =
   Inr (Some \<lparr>guard_page_id = 0, guard_frame = Some 0, guard_replacer = True,
               guard_bpm_latch = True, is_valid = True\<rparr>,
        Inr [0, 0, 0, 0],
        Some [1, 2, 3, 4],
        [IncreaseDiskSpaceCall 0, WritePageCall 0 [1, 2, 3, 4], IncreaseDiskSpaceCall 1])"
  by (simp add: refetch_scenario_def replacer_defs pool_defs guard_defs)

text \<open>
  C2 on concrete pools of two frames. \<^verbatim>\<open>NewPage\<close> on the fresh pool takes a frame
  off the free list and leaves it unpinned and not evictable: the three summands go from
  \<open>0 + 2 + 0\<close> to \<open>0 + 1 + 0\<close>. In \<open>one_page_released\<close> the summands are
  \<open>0 + 1 + 1\<close>; \<^verbatim>\<open>CheckedReadPage\<close> of a page that is not in the page table
  first evicts frame 0 and then uses the free frame 1, so they become \<open>1 + 0 + 0\<close>.
\<close>

theorem frame_accounting_lost:
  "num_frames (BufferPoolManager_init 2 2 4) = 2 \<and>
   frame_accounting (BufferPoolManager_init 2 2 4) = (0, 2, 0) \<and>
   map_sum id (\<lambda>(p, s). (p, frame_accounting s)) (NewPage (BufferPoolManager_init 2 2 4)) =
     Inr (0, (0, 1, 0)) \<and>
   map_sum id frame_accounting one_page_released = Inr (0, 1, 1) \<and>
   then_do one_page_released (\<lambda>s.
     map_sum id (\<lambda>(g, s'). (is_valid (the g), frame_accounting s'))
       (CheckedReadPage s 5 Unknown)) =
     Inr (True, (1, 0, 0))"
  by (simp add: one_page_released_def frame_accounting_def replacer_defs pool_defs guard_defs
        upt_rec)

text \<open>
  C4 on a concrete pool. At the end of \<open>evict_scenario\<close> the only frame was evicted
  while it held page 1 and now serves page 0. The key erased from the page table was the
  frame's id 0, not page 1: the page table maps both page 0 and page 1 to frame 0.
\<close>

theorem evicted_page_stays_in_page_table:
  "map_sum id (\<lambda>(g, s). (g, page_table s 0, page_table s 1, length (frames s))) evict_scenario =
   Inr (Some \<lparr>guard_page_id = 0, guard_frame = Some 0, guard_replacer = True,
               guard_bpm_latch = True, is_valid = True\<rparr>,
        Some 0, Some 0, 1)"
  by (simp add: evict_scenario_def replacer_defs pool_defs guard_defs)

subsection \<open>Deleting pages\<close>

text \<open>
  The three ways \<^verbatim>\<open>DeletePage\<close> returns: false with the pool unchanged for a pinned
  page; true for a page that is not in the page table; true for an unpinned page when
  \<^verbatim>\<open>Remove\<close> returns, with the entry gone, the frame reset and at the back of the
  free list, and \<^verbatim>\<open>DeallocatePage\<close> called.
\<close>

lemma DeletePage_pinned:
  "page_table s page_id = Some i \<Longrightarrow> frame_at (frames s) i = Some page \<Longrightarrow>
   pin_count page > 0 \<Longrightarrow> page_id \<noteq> INVALID_PAGE_ID \<Longrightarrow>
   DeletePage s page_id = Inr (False, s)"
  by (simp add: DeletePage_def then_do_def)

lemma DeletePage_absent:
  "page_table s page_id = None \<Longrightarrow>
   DeletePage s page_id =
     Inr (True, if page_id = INVALID_PAGE_ID then s
                else s\<lparr>disk_scheduler := DeallocatePage (disk_scheduler s) page_id\<rparr>)"
  by (simp add: DeletePage_def then_do_def)

lemma DeletePage_unpinned:
  assumes "page_table s page_id = Some i" and "frame_at (frames s) i = Some page"
    and "pin_count page = 0" and "page_id \<noteq> INVALID_PAGE_ID"
    and "Remove (replacer s) i = Inr r1"
  shows "DeletePage s page_id =
     Inr (True,
          s\<lparr>page_table := (page_table s)(page_id := None),
            free_frames := free_frames s @ [i],
            replacer := r1,
            frames := frame_upd (frames s) i (\<lambda>f. (Reset f)\<lparr>is_dirty := False, pin_count := 0\<rparr>),
            disk_scheduler := DeallocatePage (disk_scheduler s) page_id\<rparr>)"
  using assms by (simp add: DeletePage_def then_do_def)

text \<open>
  C8 on a concrete pool. Right after \<^verbatim>\<open>NewPage\<close> the page is in the page table
  with pin count 0, and its frame is tracked by the replacer as not evictable.
  \<^verbatim>\<open>DeletePage\<close> of that page reaches \<^verbatim>\<open>Remove\<close>, whose assertion on
  \<^verbatim>\<open>is_evictable_\<close> fails: the call aborts instead of returning true.
\<close>

theorem DeletePage_after_NewPage_aborts:
  "then_do (NewPage (BufferPoolManager_init 1 2 4)) (\<lambda>(p, s). GetPinCount s p) = Inr (Some 0) \<and>
   then_do (NewPage (BufferPoolManager_init 1 2 4)) (\<lambda>(p, s). DeletePage s p) =
     Inl AssertionFailed"
  by (simp add: replacer_defs pool_defs)

text \<open>
  C9 on a concrete guard. Move-constructing a \<^verbatim>\<open>ReadPageGuard\<close> from the valid guard
  of \<open>read_guard_scenario\<close> hands the frame to the new guard, but the source keeps
  \<^verbatim>\<open>is_valid_ = true\<close> with a null frame: \<^verbatim>\<open>GetPageId\<close> on it passes the
  validity check and \<^verbatim>\<open>GetData\<close> dereferences the null pointer. The move constructor
  of \<^verbatim>\<open>WritePageGuard\<close> and the move assignment of \<^verbatim>\<open>ReadPageGuard\<close> clear the
  flag, and the data access is refused.
\<close>

theorem ReadPageGuard_move_leaves_source_valid:
  "then_do read_guard_scenario (\<lambda>(g, s).
     map_sum id (\<lambda>(this, that, s'). (is_valid this, that, GetPageId that, GetData s' that))
       (ReadPageGuard_move_ctor s 0 (the g))) =
     Inr (True,
          \<lparr>guard_page_id = 0, guard_frame = None, guard_replacer = False,
           guard_bpm_latch = False, is_valid = True\<rparr>,
          Inr 0, Inl NullDereference) \<and>
   then_do write_guard_scenario (\<lambda>(g, s).
     map_sum id (\<lambda>(this, that, s'). (is_valid this, is_valid that, GetData s' that))
       (WritePageGuard_move_ctor s 0 (the g))) =
     Inr (True, False, Inl EnsureFailed) \<and>
   then_do read_guard_scenario (\<lambda>(g, s).
     map_sum id (\<lambda>(this, that, s'). (is_valid this, is_valid that, GetData s' that))
       (ReadPageGuard_move_assign s (PageGuard_default 0) (the g))) =
     Inr (True, False, Inl EnsureFailed)"
  by (simp add: read_guard_scenario_def write_guard_scenario_def ReadPageGuard_move_assign_def
        replacer_defs pool_defs guard_defs)

end
